theory Spec2Isabelle
  imports Main "HOL-Library.AList"
begin

section \<open>Data model\<close>

text \<open>
  The bridge manager of \<^verbatim>\<open>SchemaEditorBridgeManager.ts\<close> is a class with five
  instance fields and one static field; the hook of \<^verbatim>\<open>useSchemaEditorBridge.ts\<close>
  drives it. Objects live in a store (\<open>heap\<close>, addresses are numbers), so that a
  reference held by a closure stays a reference when the singleton is replaced.

  A \<open>SchemaValue\<close> comes from the host SDK. The manager only asks whether it is a
  string (\<^verbatim>\<open>typeof schema === 'string'\<close>); every other value is kept abstract in
  \<open>'j\<close> and serialised by \<^verbatim>\<open>JSON.stringify(schema, null, 2)\<close>, a built-in that the
  operations below take as the parameter \<open>stringify\<close>.
\<close>

datatype 'j SchemaValue = StringValue string | OtherValue 'j

text \<open>
  \<^verbatim>\<open>interface BubbleHandler\<close>. The three members are closures of the registering
  component: they read and write state outside the manager, the type \<open>'w\<close>. A
  custom preview returns a teardown function or nothing.
\<close>

record ('j, 'w) BubbleHandler =
  getContent :: "'w \<Rightarrow> string \<times> 'w"
  setContent :: "string \<Rightarrow> 'w \<Rightarrow> 'w"
  renderPreview :: "('j SchemaValue \<Rightarrow> string \<Rightarrow> 'w \<Rightarrow> ('w \<Rightarrow> 'w) option \<times> 'w) option"

text \<open>\<^verbatim>\<open>ReactDOM.Root\<close>: a render target, created on a container element.\<close>

datatype Root = Root (root_container: string)

text \<open>The function returned by \<^verbatim>\<open>createSchemaEditorBridge\<close>.\<close>

datatype bridge_cleanup = BridgeCleanup

text \<open>
  The calls the manager makes on its collaborators (host SDK, React), in the order
  it makes them. \<open>Render r v\<close> is \<^verbatim>\<open>r.render(createElement(MarkdownEditor,
  {initValue: v, readonly: true, ...}))\<close>.
\<close>

datatype external_call =
    CreateSchemaEditorBridge
  | CallCleanup
  | CreateRoot string
  | Render Root string
  | Unmount Root

type_synonym ('j, 'w) Registry = "(string \<times> ('j, 'w) BubbleHandler) list"

text \<open>
  \<^verbatim>\<open>Map<string, BubbleHandler>\<close>: an association list in insertion order.
  \<^verbatim>\<open>set\<close> replaces the value of a key that is present, in place, and appends a
  new key otherwise; \<^verbatim>\<open>delete\<close> removes the key and ignores an absent one.
\<close>

definition Map_get :: "('j, 'w) Registry \<Rightarrow> string \<Rightarrow> ('j, 'w) BubbleHandler option" where
  "Map_get m k = map_of m k"

definition Map_set :: "string \<Rightarrow> ('j, 'w) BubbleHandler \<Rightarrow> ('j, 'w) Registry \<Rightarrow> ('j, 'w) Registry" where
  "Map_set k v m = AList.update k v m"

definition Map_delete :: "string \<Rightarrow> ('j, 'w) Registry \<Rightarrow> ('j, 'w) Registry" where
  "Map_delete k m = AList.delete k m"

definition Map_size :: "('j, 'w) Registry \<Rightarrow> nat" where
  "Map_size m = length m"

definition Map_has :: "('j, 'w) Registry \<Rightarrow> string \<Rightarrow> bool" where
  "Map_has m k = (map_of m k \<noteq> None)"

text \<open>The instance fields of \<^verbatim>\<open>class SchemaEditorBridgeManager\<close>.\<close>

record ('j, 'w) SchemaEditorBridgeManager =
  registry :: "('j, 'w) Registry"
  cleanup :: "bridge_cleanup option"
  enabled :: bool
  previewRoot :: "Root option"
  currentEditingId :: "string option"

text \<open>The field initialisers; the constructor body is empty.\<close>

definition new_manager :: "('j, 'w) SchemaEditorBridgeManager" where
  "new_manager =
     \<lparr>registry = [], cleanup = None, enabled = False, previewRoot = None,
      currentEditingId = None\<rparr>"

text \<open>
  The whole process: the static field \<^verbatim>\<open>SchemaEditorBridgeManager.instance\<close>, the
  object store with its allocation pointer, the log of external calls, the ids of
  the elements \<^verbatim>\<open>document.getElementById\<close> finds, and the state of the components.
\<close>

record ('j, 'w) process =
  static_instance :: "nat option"
  heap :: "nat \<Rightarrow> ('j, 'w) SchemaEditorBridgeManager"
  allocated :: nat
  calls :: "external_call list"
  elements :: "string list"
  world :: "'w"

definition initial_process :: "'w \<Rightarrow> ('j, 'w) process" where
  "initial_process w =
     \<lparr>static_instance = None, heap = (\<lambda>_. new_manager), allocated = 0, calls = [],
      elements = [], world = w\<rparr>"

definition this_update ::
  "nat \<Rightarrow> (('j, 'w) SchemaEditorBridgeManager \<Rightarrow> ('j, 'w) SchemaEditorBridgeManager) \<Rightarrow>
   ('j, 'w) process \<Rightarrow> ('j, 'w) process" where
  "this_update this f s = s\<lparr>heap := (heap s)(this := f (heap s this))\<rparr>"

definition external :: "external_call \<Rightarrow> ('j, 'w) process \<Rightarrow> ('j, 'w) process" where
  "external c s = s\<lparr>calls := calls s @ [c]\<rparr>"

definition getElementById :: "('j, 'w) process \<Rightarrow> string \<Rightarrow> string option" where
  "getElementById s containerId = (if containerId \<in> set (elements s) then Some containerId else None)"

section \<open>The manager\<close>

definition getInstance :: "('j, 'w) process \<Rightarrow> nat \<times> ('j, 'w) process" where
  "getInstance s =
     (case static_instance s of
        None \<Rightarrow>
          (allocated s,
           s\<lparr>heap := (heap s)(allocated s := new_manager),
             allocated := Suc (allocated s),
             static_instance := Some (allocated s)\<rparr>)
      | Some a \<Rightarrow> (a, s))"

definition startBridge :: "nat \<Rightarrow> ('j, 'w) process \<Rightarrow> ('j, 'w) process" where
  "startBridge this s =
     (if cleanup (heap s this) \<noteq> None then s
      else this_update this (\<lambda>m. m\<lparr>cleanup := Some BridgeCleanup\<rparr>)
             (external CreateSchemaEditorBridge s))"

definition stopBridge :: "nat \<Rightarrow> ('j, 'w) process \<Rightarrow> ('j, 'w) process" where
  "stopBridge this s =
     (if cleanup (heap s this) \<noteq> None
      then this_update this (\<lambda>m. m\<lparr>cleanup := None\<rparr>) (external CallCleanup s)
      else s)"

definition setEnabled :: "nat \<Rightarrow> bool \<Rightarrow> ('j, 'w) process \<Rightarrow> ('j, 'w) process" where
  "setEnabled this en s =
     (let wasEnabled = enabled (heap s this);
          s1 = this_update this (\<lambda>m. m\<lparr>enabled := en\<rparr>) s
      in if en \<and> \<not> wasEnabled \<and> 0 < Map_size (registry (heap s1 this)) then startBridge this s1
         else if \<not> en \<and> wasEnabled then stopBridge this s1
         else s1)"

definition isEnabled :: "nat \<Rightarrow> ('j, 'w) process \<Rightarrow> bool" where
  "isEnabled this s = enabled (heap s this)"

definition register ::
  "nat \<Rightarrow> string \<Rightarrow> ('j, 'w) BubbleHandler \<Rightarrow> ('j, 'w) process \<Rightarrow> ('j, 'w) process" where
  "register this ident handler s =
     (let s1 = this_update this (\<lambda>m. m\<lparr>registry := Map_set ident handler (registry m)\<rparr>) s
      in if enabled (heap s1 this) then startBridge this s1 else s1)"

definition unregister :: "nat \<Rightarrow> string \<Rightarrow> ('j, 'w) process \<Rightarrow> ('j, 'w) process" where
  "unregister this ident s =
     (let s1 = this_update this (\<lambda>m. m\<lparr>registry := Map_delete ident (registry m)\<rparr>) s
      in if Map_size (registry (heap s1 this)) = 0 then stopBridge this s1 else s1)"

definition getRegistrySize :: "nat \<Rightarrow> ('j, 'w) process \<Rightarrow> nat" where
  "getRegistrySize this s = Map_size (registry (heap s this))"

definition has :: "nat \<Rightarrow> string \<Rightarrow> ('j, 'w) process \<Rightarrow> bool" where
  "has this ident s = Map_has (registry (heap s this)) ident"

text \<open>
  What a preview callback hands back to the host: the teardown a handler's own
  \<^verbatim>\<open>renderPreview\<close> returned, or the closure built by \<^verbatim>\<open>createDefaultPreview\<close>,
  which reads \<^verbatim>\<open>this.previewRoot\<close> when it is called.
\<close>

datatype 'w teardown = HandlerTeardown "'w \<Rightarrow> 'w" | DefaultPreviewTeardown nat

definition createDefaultPreview ::
  "('j \<Rightarrow> string) \<Rightarrow> nat \<Rightarrow> 'j SchemaValue \<Rightarrow> string \<Rightarrow> ('j, 'w) process \<Rightarrow>
   'w teardown option \<times> ('j, 'w) process" where
  "createDefaultPreview stringify this schema containerId s =
     (case getElementById s containerId of
        None \<Rightarrow> (None, s)
      | Some container \<Rightarrow>
          (let content = (case schema of StringValue str \<Rightarrow> str | OtherValue j \<Rightarrow> stringify j);
               (root, s1) =
                 (case previewRoot (heap s this) of
                    None \<Rightarrow>
                      (Root container,
                       this_update this (\<lambda>m. m\<lparr>previewRoot := Some (Root container)\<rparr>)
                         (external (CreateRoot container) s))
                  | Some r \<Rightarrow> (r, s))
           in (Some (DefaultPreviewTeardown this), external (Render root content) s1)))"

text \<open>Calling a teardown function.\<close>

fun call_teardown :: "'w teardown \<Rightarrow> ('j, 'w) process \<Rightarrow> ('j, 'w) process" where
  "call_teardown (HandlerTeardown f) s = s\<lparr>world := f (world s)\<rparr>"
| "call_teardown (DefaultPreviewTeardown this) s =
     (case previewRoot (heap s this) of
        Some r \<Rightarrow> this_update this (\<lambda>m. m\<lparr>previewRoot := None\<rparr>) (external (Unmount r) s)
      | None \<Rightarrow> s)"

text \<open>
  The three callbacks that \<open>startBridge\<close> passes to \<^verbatim>\<open>createSchemaEditorBridge\<close>.
  \<open>None\<close> is \<^verbatim>\<open>undefined\<close>.
\<close>

definition bridge_getSchema ::
  "nat \<Rightarrow> string \<Rightarrow> ('j, 'w) process \<Rightarrow> string option \<times> ('j, 'w) process" where
  "bridge_getSchema this params s =
     (case Map_get (registry (heap s this)) params of
        None \<Rightarrow> (None, this_update this (\<lambda>m. m\<lparr>currentEditingId := None\<rparr>) s)
      | Some handler \<Rightarrow>
          (let s1 = this_update this (\<lambda>m. m\<lparr>currentEditingId := Some params\<rparr>) s;
               (content, w) = getContent handler (world s1)
           in (Some content, s1\<lparr>world := w\<rparr>)))"

definition bridge_updateSchema ::
  "('j \<Rightarrow> string) \<Rightarrow> nat \<Rightarrow> 'j SchemaValue \<Rightarrow> string \<Rightarrow> ('j, 'w) process \<Rightarrow>
   bool \<times> ('j, 'w) process" where
  "bridge_updateSchema stringify this schema params s =
     (case Map_get (registry (heap s this)) params of
        None \<Rightarrow> (False, s)
      | Some handler \<Rightarrow>
          (let content = (case schema of StringValue str \<Rightarrow> str | OtherValue j \<Rightarrow> stringify j)
           in (True, s\<lparr>world := setContent handler content (world s)\<rparr>)))"

text \<open>
  \<^verbatim>\<open>if (this.currentEditingId)\<close> is a truthiness test: it fails for \<^verbatim>\<open>null\<close> and for
  the empty string. \<^verbatim>\<open>handler?.renderPreview\<close> is absent when the id is no longer
  registered or the handler has no custom renderer.
\<close>

definition bridge_renderPreview ::
  "('j \<Rightarrow> string) \<Rightarrow> nat \<Rightarrow> 'j SchemaValue \<Rightarrow> string \<Rightarrow> ('j, 'w) process \<Rightarrow>
   'w teardown option \<times> ('j, 'w) process" where
  "bridge_renderPreview stringify this schema containerId s =
     (let custom =
            (case currentEditingId (heap s this) of
               None \<Rightarrow> None
             | Some editing \<Rightarrow>
                 if editing = [] then None
                 else (case Map_get (registry (heap s this)) editing of
                         None \<Rightarrow> None
                       | Some handler \<Rightarrow> renderPreview handler))
      in case custom of
           Some render \<Rightarrow>
             (let (result, w) = render schema containerId (world s)
              in (map_option HandlerTeardown result, s\<lparr>world := w\<rparr>))
         | None \<Rightarrow> createDefaultPreview stringify this schema containerId s)"

definition destroy :: "('j, 'w) process \<Rightarrow> ('j, 'w) process" where
  "destroy s =
     (case static_instance s of
        None \<Rightarrow> s
      | Some a \<Rightarrow>
          (let s1 = stopBridge a s;
               s2 = this_update a (\<lambda>m. m\<lparr>registry := []\<rparr>) s1;
               s3 = this_update a (\<lambda>m. m\<lparr>currentEditingId := None\<rparr>) s2;
               s4 = (case previewRoot (heap s3 a) of
                       Some r \<Rightarrow>
                         this_update a (\<lambda>m. m\<lparr>previewRoot := None\<rparr>) (external (Unmount r) s3)
                     | None \<Rightarrow> s3)
           in s4\<lparr>static_instance := None\<rparr>))"

text \<open>The bridge connection is open while the manager holds its cleanup function.\<close>

definition bridge_open :: "nat \<Rightarrow> ('j, 'w) process \<Rightarrow> bool" where
  "bridge_open this s = (cleanup (heap s this) \<noteq> None)"

section \<open>Sequences of calls\<close>

datatype ('j, 'w) call =
    SetEnabled bool
  | Register string "('j, 'w) BubbleHandler"
  | Unregister string

fun apply_call :: "nat \<Rightarrow> ('j, 'w) call \<Rightarrow> ('j, 'w) process \<Rightarrow> ('j, 'w) process" where
  "apply_call this (SetEnabled b) s = setEnabled this b s"
| "apply_call this (Register i h) s = register this i h s"
| "apply_call this (Unregister i) s = unregister this i s"

fun run :: "nat \<Rightarrow> ('j, 'w) call list \<Rightarrow> ('j, 'w) process \<Rightarrow> ('j, 'w) process" where
  "run this [] s = s"
| "run this (c # cs) s = run this cs (apply_call this c s)"

text \<open>The state after each call of a sequence, the starting state first.\<close>

fun states :: "nat \<Rightarrow> ('j, 'w) call list \<Rightarrow> ('j, 'w) process \<Rightarrow> ('j, 'w) process list" where
  "states this [] s = [s]"
| "states this (c # cs) s = s # states this cs (apply_call this c s)"

definition connection_invariant :: "nat \<Rightarrow> ('j, 'w) process \<Rightarrow> bool" where
  "connection_invariant this s =
     (bridge_open this s = (isEnabled this s \<and> 0 < getRegistrySize this s))"

text \<open>
  The identifiers that are registered after a sequence of calls, computed call by
  call, and the same notion in words: some call registered the identifier and no
  later call unregistered it.
\<close>

fun registered_after :: "string set \<Rightarrow> ('j, 'w) call \<Rightarrow> string set" where
  "registered_after S (SetEnabled b) = S"
| "registered_after S (Register i h) = insert i S"
| "registered_after S (Unregister i) = S - {i}"

definition live_ids :: "('j, 'w) call list \<Rightarrow> string set" where
  "live_ids cs = foldl registered_after {} cs"

fun is_register :: "string \<Rightarrow> ('j, 'w) call \<Rightarrow> bool" where
  "is_register i (Register k h) = (k = i)"
| "is_register i _ = False"

definition still_registered :: "string \<Rightarrow> ('j, 'w) call list \<Rightarrow> bool" where
  "still_registered i cs =
     (\<exists>n < length cs. is_register i (cs ! n) \<and>
        (\<forall>m. n < m \<and> m < length cs \<longrightarrow> cs ! m \<noteq> Unregister i))"

definition keys :: "nat \<Rightarrow> ('j, 'w) process \<Rightarrow> string list" where
  "keys a s = map fst (registry (heap s a))"

section \<open>The binding hook\<close>

text \<open>
  One cell per mounted hook instance, and the state \<open>'u\<close> that the callbacks of the
  embedding application act on.

  Modelled from the spec: \<^verbatim>\<open>useRefState\<close> (imported from \<^verbatim>\<open>./useRefState\<close>, which is not
  among the sources). The spec asks for "a mutable cell alongside the state, that is
  updated synchronously on write, not deferred to the next render/tick", and the
  hook's comments say that the setter updates the ref at once and triggers a
  re-render. So the setter writes \<open>contentRef\<close> and the stored state \<open>nextContent\<close>
  at once, and the value \<open>content\<close> that the component sees changes at the next render.
  \<open>onContentChangeRef\<close> is \<^verbatim>\<open>useLatest(onContentChange)\<close>: the callback of the latest
  render.
\<close>

record 'u hook_instance =
  content :: string
  nextContent :: string
  contentRef :: string
  onContentChangeRef :: "(string \<Rightarrow> 'u \<Rightarrow> 'u) option"

record 'u components =
  hooks :: "nat \<Rightarrow> 'u hook_instance"
  user :: "'u"

definition setContentInternal :: "string \<Rightarrow> 'u hook_instance \<Rightarrow> 'u hook_instance" where
  "setContentInternal v c = c\<lparr>contentRef := v, nextContent := v\<rparr>"

text \<open>
  A render of hook instance \<open>k\<close> with the configuration's \<^verbatim>\<open>onContentChange\<close>: the
  component reads the stored state, and \<^verbatim>\<open>useLatest\<close> stores the callback.
\<close>

definition render_hook ::
  "nat \<Rightarrow> (string \<Rightarrow> 'u \<Rightarrow> 'u) option \<Rightarrow> 'u components \<Rightarrow> 'u components" where
  "render_hook k onContentChange w =
     w\<lparr>hooks := (hooks w)
          (k := (hooks w k)\<lparr>content := nextContent (hooks w k),
                           onContentChangeRef := onContentChange\<rparr>)\<rparr>"

text \<open>
  The effect that follows the \<^verbatim>\<open>initialContent\<close> argument: it runs after the first
  render and whenever the argument changes.
\<close>

definition sync_initialContent :: "nat \<Rightarrow> string \<Rightarrow> 'u components \<Rightarrow> 'u components" where
  "sync_initialContent k initialContent w =
     w\<lparr>hooks := (hooks w)(k := setContentInternal initialContent (hooks w k))\<rparr>"

text \<open>The hook's \<^verbatim>\<open>setContent\<close>.\<close>

definition hook_setContent :: "nat \<Rightarrow> string \<Rightarrow> 'u components \<Rightarrow> 'u components" where
  "hook_setContent k newContent w =
     (let w1 = w\<lparr>hooks := (hooks w)(k := setContentInternal newContent (hooks w k))\<rparr>
      in case onContentChangeRef (hooks w1 k) of
           None \<Rightarrow> w1
         | Some onContentChange \<Rightarrow> w1\<lparr>user := onContentChange newContent (user w1)\<rparr>)"

text \<open>
  The handler object that the registration effect builds; \<open>rp\<close> is
  \<^verbatim>\<open>renderPreviewRef.current\<close> at the time the effect runs.
\<close>

definition hook_handler ::
  "nat \<Rightarrow>
   ('j SchemaValue \<Rightarrow> string \<Rightarrow> 'u components \<Rightarrow> ('u components \<Rightarrow> 'u components) option \<times> 'u components) option \<Rightarrow>
   ('j, 'u components) BubbleHandler" where
  "hook_handler k rp =
     \<lparr>getContent = (\<lambda>w. (contentRef (hooks w k), w)),
      setContent = hook_setContent k,
      renderPreview = rp\<rparr>"

text \<open>The function an effect returns: \<^verbatim>\<open>() => { manager.unregister(id) }\<close>.\<close>

datatype effect_cleanup = UnregisterOnCleanup nat string

text \<open>
  The body of the registration effect, for hook instance \<open>k\<close> with the arguments
  \<open>id\<close> (\<open>None\<close> is \<^verbatim>\<open>undefined\<close>) and \<open>enabled\<close> of the current render. \<^verbatim>\<open>!id\<close> holds
  for \<^verbatim>\<open>undefined\<close> and for the empty string.
\<close>

definition registration_effect ::
  "nat \<Rightarrow> string option \<Rightarrow> bool \<Rightarrow>
   ('j SchemaValue \<Rightarrow> string \<Rightarrow> 'u components \<Rightarrow> ('u components \<Rightarrow> 'u components) option \<times> 'u components) option \<Rightarrow>
   ('j, 'u components) process \<Rightarrow> effect_cleanup option \<times> ('j, 'u components) process" where
  "registration_effect k ident en rp s =
     (let (manager, s1) = getInstance s
      in case ident of
           None \<Rightarrow> (None, s1)
         | Some i \<Rightarrow>
             if i = [] \<or> \<not> en
             then (None, if i \<noteq> [] \<and> has manager i s1 then unregister manager i s1 else s1)
             else (let s2 = setEnabled manager True s1;
                       handler = hook_handler k rp;
                       s3 = register manager i handler s2
                   in (Some (UnregisterOnCleanup manager i), s3)))"

fun run_cleanup :: "effect_cleanup \<Rightarrow> ('j, 'w) process \<Rightarrow> ('j, 'w) process" where
  "run_cleanup (UnregisterOnCleanup manager i) s = unregister manager i s"

section \<open>Example components\<close>

text \<open>
  A component whose whole state is its content string, with the handler the class
  comment suggests: \<^verbatim>\<open>{ getContent: () => content, setContent: (c) => setContent(c) }\<close>.
\<close>

definition content_handler :: "('j, string) BubbleHandler" where
  "content_handler =
     \<lparr>getContent = (\<lambda>w. (w, w)), setContent = (\<lambda>c w. c), renderPreview = None\<rparr>"

definition example_state :: "(unit, string) process" where
  "example_state =
     run 0 [SetEnabled True, Register ''a'' content_handler]
       (snd (getInstance (initial_process ''hello'')))"

text \<open>The example state after the host has asked for a preview in an existing container.\<close>

definition preview_state :: "(unit, string) process" where
  "preview_state =
     snd (bridge_renderPreview (\<lambda>u. ''null'') 0 (StringValue ''# Title'') ''preview''
            (example_state\<lparr>elements := [''preview'']\<rparr>))"

text \<open>
  A handler with a custom preview: it writes a note into the component's state and
  returns a teardown that writes another.
\<close>

definition custom_handler :: "('j, string) BubbleHandler" where
  "custom_handler =
     content_handler
       \<lparr>renderPreview := Some (\<lambda>v c w. (Some (\<lambda>w. ''closed ''), ''custom preview in '' @ c))\<rparr>"

text \<open>A component that uses the hook, with a callback that records its arguments.\<close>

definition mounted_hook :: "string list components" where
  "mounted_hook =
     \<lparr>hooks = (\<lambda>k. \<lparr>content = ''hello'', nextContent = ''hello'', contentRef = ''hello'',
                     onContentChangeRef = Some (\<lambda>c seen. seen @ [c])\<rparr>),
      user = []\<rparr>"

text \<open>
  The example state with a second component \<^verbatim>\<open>c\<close> that has a custom preview, after
  the host has queried \<^verbatim>\<open>c\<close>.
\<close>

definition custom_state :: "(unit, string) process" where
  "custom_state =
     snd (bridge_getSchema 0 ''c''
            (register 0 ''c'' custom_handler (example_state\<lparr>elements := [''preview'']\<rparr>)))"

section \<open>Everything that can happen to the flag\<close>

text \<open>
  The steps a running application takes: a hook's registration effect and the cleanup
  of an earlier effect, direct calls of manager methods, the three callbacks called by
  the host, teardown functions, and the hook's own \<open>setContent\<close>, renders and
  content synchronisation.
  \<open>destroy\<close> is not among them.
\<close>

datatype ('j, 'u) action =
    RunEffect nat "string option" bool
      "('j SchemaValue \<Rightarrow> string \<Rightarrow> 'u components \<Rightarrow> ('u components \<Rightarrow> 'u components) option \<times> 'u components) option"
  | RunCleanup effect_cleanup
  | ManagerCall nat "('j, 'u components) call"
  | HostGetSchema nat string
  | HostUpdateSchema nat "'j SchemaValue" string
  | HostRenderPreview nat "'j SchemaValue" string
  | CallTeardown "'u components teardown"
  | HookSetContent nat string
  | HookRender nat "(string \<Rightarrow> 'u \<Rightarrow> 'u) option"
  | HookSyncInitialContent nat string

fun perform ::
  "('j \<Rightarrow> string) \<Rightarrow> ('j, 'u) action \<Rightarrow> ('j, 'u components) process \<Rightarrow> ('j, 'u components) process" where
  "perform stringify (RunEffect k ident en rp) s = snd (registration_effect k ident en rp s)"
| "perform stringify (RunCleanup c) s = run_cleanup c s"
| "perform stringify (ManagerCall this c) s = apply_call this c s"
| "perform stringify (HostGetSchema this params) s = snd (bridge_getSchema this params s)"
| "perform stringify (HostUpdateSchema this v params) s = snd (bridge_updateSchema stringify this v params s)"
| "perform stringify (HostRenderPreview this v c) s = snd (bridge_renderPreview stringify this v c s)"
| "perform stringify (CallTeardown t) s = call_teardown t s"
| "perform stringify (HookSetContent k v) s = s\<lparr>world := hook_setContent k v (world s)\<rparr>"
| "perform stringify (HookRender k cb) s = s\<lparr>world := render_hook k cb (world s)\<rparr>"
| "perform stringify (HookSyncInitialContent k v) s = s\<lparr>world := sync_initialContent k v (world s)\<rparr>"

fun perform_all ::
  "('j \<Rightarrow> string) \<Rightarrow> ('j, 'u) action list \<Rightarrow> ('j, 'u components) process \<Rightarrow> ('j, 'u components) process" where
  "perform_all stringify [] s = s"
| "perform_all stringify (x # xs) s = perform_all stringify xs (perform stringify x s)"

text \<open>The one action that is an explicit \<^verbatim>\<open>setEnabled(false)\<close>.\<close>

fun disables :: "('j, 'u) action \<Rightarrow> bool" where
  "disables (ManagerCall this (SetEnabled b)) = (\<not> b)"
| "disables _ = False"

text \<open>
  The connections the host SDK holds open according to the log: one more for every
  \<^verbatim>\<open>createSchemaEditorBridge\<close>, one less for every call of a cleanup function.
\<close>

fun open_connections :: "external_call list \<Rightarrow> int" where
  "open_connections [] = 0"
| "open_connections (CreateSchemaEditorBridge # cs) = open_connections cs + 1"
| "open_connections (CallCleanup # cs) = open_connections cs - 1"
| "open_connections (c # cs) = open_connections cs"

definition balanced :: "int \<Rightarrow> nat \<Rightarrow> ('j, 'w) process \<Rightarrow> bool" where
  "balanced n a s = (open_connections (calls s) = n + (if bridge_open a s then 1 else 0))"

section \<open>The connection invariant\<close>

lemma heap_this_update [simp]: "heap (this_update a f s) b = (if b = a then f (heap s a) else heap s b)"
  by (simp add: this_update_def)

lemma heap_external [simp]: "heap (external c s) = heap s"
  by (simp add: external_def)

lemma this_update_frame [simp]:
  "static_instance (this_update a f s) = static_instance s"
  "allocated (this_update a f s) = allocated s"
  "calls (this_update a f s) = calls s"
  "elements (this_update a f s) = elements s"
  "world (this_update a f s) = world s"
  by (simp_all add: this_update_def)

lemma external_frame [simp]:
  "static_instance (external c s) = static_instance s"
  "allocated (external c s) = allocated s"
  "calls (external c s) = calls s @ [c]"
  "elements (external c s) = elements s"
  "world (external c s) = world s"
  by (simp_all add: external_def)

lemma this_update_same: "f (heap s a) = heap s a \<Longrightarrow> this_update a f s = s"
  by (simp add: this_update_def)

lemma has_iff: "has a i s = (\<exists>h. Map_get (registry (heap s a)) i = Some h)"
  by (simp add: has_def Map_has_def Map_get_def)

lemma Map_size_set_pos [simp]: "0 < Map_size (Map_set k v m)"
  by (simp add: Map_size_def Map_set_def)


lemma invariant_setEnabled:
  "connection_invariant a s \<Longrightarrow> connection_invariant a (setEnabled a b s)"
  by (auto simp: connection_invariant_def bridge_open_def isEnabled_def getRegistrySize_def
      setEnabled_def startBridge_def stopBridge_def Let_def)








lemma example_state_fields:
  "heap example_state 0 =
     \<lparr>registry = [(''a'', content_handler)], cleanup = Some BridgeCleanup, enabled = True,
      previewRoot = None, currentEditingId = None\<rparr>"
  "world example_state = ''hello''"
  "calls example_state = [CreateSchemaEditorBridge]"
  "elements example_state = []"
  "static_instance example_state = Some 0"
  "allocated example_state = 1"
  by (simp_all add: example_state_def getInstance_def initial_process_def setEnabled_def
      register_def startBridge_def new_manager_def Map_size_def Map_set_def Let_def)

section \<open>The callbacks\<close>

text \<open>
  C2. The content query callback. For an identifier \<open>i\<close> registered with handler \<open>h\<close>
  it returns the string that \<open>h\<close>'s \<open>getContent\<close> produces and records \<open>i\<close> as the
  current-editing identifier. For an identifier that is not registered it returns
  \<open>None\<close> (\<^verbatim>\<open>undefined\<close>), clears the current-editing identifier and leaves the
  registry and its size as they were.
\<close>

theorem C2_content_query:
  "(Map_get (registry (heap s a)) i = Some h \<longrightarrow>
      fst (bridge_getSchema a i s) = Some (fst (getContent h (world s))) \<and>
      currentEditingId (heap (snd (bridge_getSchema a i s)) a) = Some i) \<and>
   (\<not> has a i s \<longrightarrow>
      fst (bridge_getSchema a i s) = None \<and>
      currentEditingId (heap (snd (bridge_getSchema a i s)) a) = None \<and>
      registry (heap (snd (bridge_getSchema a i s)) a) = registry (heap s a) \<and>
      getRegistrySize a (snd (bridge_getSchema a i s)) = getRegistrySize a s)"
  by (auto simp: bridge_getSchema_def has_iff getRegistrySize_def Let_def split: prod.splits)

theorem C2_witness:
  "fst (bridge_getSchema 0 ''a'' example_state) = Some ''hello'' \<and>
   currentEditingId (heap (snd (bridge_getSchema 0 ''a'' example_state)) 0) = Some ''a'' \<and>
   fst (bridge_getSchema 0 ''b'' example_state) = None \<and>
   currentEditingId (heap (snd (bridge_getSchema 0 ''b'' example_state)) 0) = None \<and>
   getRegistrySize 0 (snd (bridge_getSchema 0 ''b'' example_state)) = 1"
  using C2_content_query [where s = example_state and a = 0 and i = "''a''" and h = content_handler]
    C2_content_query [where s = example_state and a = 0 and i = "''b''"]
  by (simp add: example_state_fields Map_get_def has_iff getRegistrySize_def Map_size_def
      content_handler_def)

text \<open>
  C3. The content update callback. For an identifier that is not registered it
  returns false and changes nothing. For an identifier registered with handler \<open>h\<close>
  it calls \<open>h\<close>'s \<open>setContent\<close> once, with the value itself when the value is a string
  and with its \<^verbatim>\<open>JSON.stringify(v, null, 2)\<close> serialisation otherwise, and returns true.
\<close>

theorem C3_content_update:
  "(\<not> has a i s \<longrightarrow> bridge_updateSchema stringify a v i s = (False, s)) \<and>
   (Map_get (registry (heap s a)) i = Some h \<longrightarrow>
      bridge_updateSchema stringify a (StringValue str) i s =
        (True, s\<lparr>world := setContent h str (world s)\<rparr>) \<and>
      bridge_updateSchema stringify a (OtherValue j) i s =
        (True, s\<lparr>world := setContent h (stringify j) (world s)\<rparr>))"
  by (auto simp: bridge_updateSchema_def has_iff)

theorem C3_witness:
  "bridge_updateSchema (\<lambda>u. ''null'') 0 (StringValue ''Y'') ''b'' example_state = (False, example_state) \<and>
   bridge_updateSchema (\<lambda>u. ''null'') 0 (StringValue ''Y'') ''a'' example_state =
     (True, example_state\<lparr>world := ''Y''\<rparr>) \<and>
   bridge_updateSchema (\<lambda>u. ''null'') 0 (OtherValue ()) ''a'' example_state =
     (True, example_state\<lparr>world := ''null''\<rparr>)"
  using C3_content_update [where a = 0 and i = "''b''" and s = example_state
      and stringify = "\<lambda>u. ''null''" and v = "StringValue ''Y''"]
    C3_content_update [where a = 0 and i = "''a''" and s = example_state and h = content_handler
      and stringify = "\<lambda>u. ''null''" and str = "''Y''" and j = "()"]
  by (simp add: example_state_fields Map_get_def has_iff content_handler_def)

text \<open>
  C9. When \<^verbatim>\<open>document.getElementById(containerId)\<close> finds nothing, the built-in
  preview does nothing: no external call is made (nothing is rendered, no render
  target is created), no field changes, and no teardown function is returned.
\<close>

theorem C9_missing_container:
  "getElementById s c = None \<Longrightarrow> createDefaultPreview stringify a v c s = (None, s)"
  by (simp add: createDefaultPreview_def)

theorem C9_witness:
  "getElementById example_state ''preview'' = None \<and>
   createDefaultPreview (\<lambda>u. ''null'') 0 (StringValue ''# Title'') ''preview'' example_state =
     (None, example_state)"
proof -
  have 1: "getElementById example_state ''preview'' = None"
    by (simp add: getElementById_def example_state_fields)
  from 1 C9_missing_container [OF 1] show ?thesis by simp
qed

section \<open>Enabling and disabling\<close>

lemma setEnabled_same: "setEnabled a (isEnabled a s) s = s"
  by (auto simp add: setEnabled_def isEnabled_def Let_def this_update_same)

text \<open>
  C4. \<open>setEnabled\<close> acts on edges only. Called with the current value of the flag it
  changes nothing at all. On a change from false to true it sets the flag and calls
  \<^verbatim>\<open>createSchemaEditorBridge\<close> exactly when the registry is not empty and no connection
  is open yet; afterwards the connection is open when the registry is not empty (and,
  in a state that satisfies the connection invariant, only then). On a change from
  true to false it clears the flag and closes the connection if one is open. The
  registry is never touched.
\<close>

theorem C4_setEnabled_edges:
  "setEnabled a (isEnabled a s) s = s \<and>
   (\<not> isEnabled a s \<longrightarrow>
      isEnabled a (setEnabled a True s) \<and>
      bridge_open a (setEnabled a True s) = (0 < getRegistrySize a s \<or> bridge_open a s) \<and>
      (connection_invariant a s \<longrightarrow>
         bridge_open a (setEnabled a True s) = (0 < getRegistrySize a s)) \<and>
      calls (setEnabled a True s) =
        calls s @ (if 0 < getRegistrySize a s \<and> \<not> bridge_open a s
                   then [CreateSchemaEditorBridge] else [])) \<and>
   (isEnabled a s \<longrightarrow>
      \<not> isEnabled a (setEnabled a False s) \<and>
      \<not> bridge_open a (setEnabled a False s) \<and>
      calls (setEnabled a False s) = calls s @ (if bridge_open a s then [CallCleanup] else [])) \<and>
   registry (heap (setEnabled a b s) a) = registry (heap s a)"
proof (intro conjI impI)
  show "setEnabled a (isEnabled a s) s = s" by (rule setEnabled_same)
qed (auto simp: setEnabled_def isEnabled_def bridge_open_def getRegistrySize_def Let_def
      startBridge_def stopBridge_def connection_invariant_def)

theorem C4_witness:
  "isEnabled 0 example_state \<and>
   setEnabled 0 True example_state = example_state \<and>
   \<not> bridge_open 0 (setEnabled 0 False example_state) \<and>
   calls (setEnabled 0 False example_state) = [CreateSchemaEditorBridge, CallCleanup] \<and>
   \<not> isEnabled 0 (setEnabled 0 False example_state) \<and>
   connection_invariant 0 (setEnabled 0 False example_state) \<and>
   bridge_open 0 (setEnabled 0 True (setEnabled 0 False example_state)) \<and>
   calls (setEnabled 0 True (setEnabled 0 False example_state)) =
     [CreateSchemaEditorBridge, CallCleanup, CreateSchemaEditorBridge]"
proof -
  let ?off = "setEnabled 0 False example_state"
  have on: "isEnabled 0 example_state" "bridge_open 0 example_state"
    by (simp_all add: isEnabled_def bridge_open_def example_state_fields)
  have inv: "connection_invariant 0 example_state"
    by (simp add: connection_invariant_def isEnabled_def bridge_open_def getRegistrySize_def
        Map_size_def example_state_fields)
  have size: "getRegistrySize 0 ?off = 1"
    by (simp add: getRegistrySize_def Map_size_def example_state_fields
        conjunct2 [OF conjunct2 [OF conjunct2 [OF C4_setEnabled_edges]]])
  from on C4_setEnabled_edges [where a = 0 and s = example_state and b = False]
  have off: "\<not> isEnabled 0 ?off" "\<not> bridge_open 0 ?off"
    "calls ?off = [CreateSchemaEditorBridge, CallCleanup]"
    "setEnabled 0 True example_state = example_state"
    by (auto simp: example_state_fields)
  from off inv have inv_off: "connection_invariant 0 ?off"
    by (simp add: invariant_setEnabled)
  from off size inv_off C4_setEnabled_edges [where a = 0 and s = "?off" and b = True]
  show ?thesis using on by simp
qed

section \<open>The size of the registry\<close>

lemma registry_setEnabled [simp]: "registry (heap (setEnabled a b s) a) = registry (heap s a)"
  by (simp add: setEnabled_def Let_def startBridge_def stopBridge_def)

lemma registry_register [simp]:
  "registry (heap (register a i h s) a) = Map_set i h (registry (heap s a))"
  by (simp add: register_def Let_def startBridge_def)

lemma registry_unregister [simp]:
  "registry (heap (unregister a i s) a) = Map_delete i (registry (heap s a))"
  by (simp add: unregister_def Let_def stopBridge_def)

lemma keys_Map_set:
  "set (map fst (Map_set k v m)) = insert k (set (map fst m))"
  "distinct (map fst m) \<Longrightarrow> distinct (map fst (Map_set k v m))"
  by (auto simp add: Map_set_def AList.update_keys)

lemma keys_Map_delete:
  "set (map fst (Map_delete k m)) = set (map fst m) - {k}"
  "distinct (map fst m) \<Longrightarrow> distinct (map fst (Map_delete k m))"
  by (simp_all only: Map_delete_def AList.delete_keys set_removeAll distinct_removeAll)

lemma keys_apply_call:
  "distinct (keys a s) \<Longrightarrow>
   distinct (keys a (apply_call a c s)) \<and> set (keys a (apply_call a c s)) = registered_after (set (keys a s)) c"
  unfolding keys_def
  by (cases c) (simp_all only: apply_call.simps registered_after.simps registry_setEnabled
      registry_register registry_unregister keys_Map_set keys_Map_delete simp_thms)

lemma keys_run:
  "distinct (keys a s) \<Longrightarrow>
   distinct (keys a (run a cs s)) \<and> set (keys a (run a cs s)) = foldl registered_after (set (keys a s)) cs"
proof (induction cs arbitrary: s)
  case Nil
  then show ?case by simp
next
  case (Cons c cs)
  from keys_apply_call [OF Cons.prems, of c] Cons.IH [of "apply_call a c s"]
  show ?case by simp
qed

lemma keys_fresh:
  "static_instance p = None \<Longrightarrow> getInstance p = (a, s) \<Longrightarrow> keys a s = []"
  by (auto simp: getInstance_def keys_def new_manager_def)

lemma size_keys: "getRegistrySize a s = length (keys a s)"
  by (simp add: getRegistrySize_def Map_size_def keys_def)


lemma live_ids_snoc: "live_ids (cs @ [c]) = registered_after (live_ids cs) c"
  by (simp add: live_ids_def)

lemma still_registered_snoc:
  "still_registered i (cs @ [c]) =
     (is_register i c \<or> (still_registered i cs \<and> c \<noteq> Unregister i))"
proof
  assume "still_registered i (cs @ [c])"
  then obtain n where n: "n < Suc (length cs)" "is_register i ((cs @ [c]) ! n)"
    and later: "\<forall>m. n < m \<and> m < Suc (length cs) \<longrightarrow> (cs @ [c]) ! m \<noteq> Unregister i"
    by (auto simp: still_registered_def)
  show "is_register i c \<or> (still_registered i cs \<and> c \<noteq> Unregister i)"
  proof (cases "n = length cs")
    case True
    with n show ?thesis by simp
  next
    case False
    with n have lt: "n < length cs" by simp
    with n have reg: "is_register i (cs ! n)" by (simp add: nth_append)
    from later lt have "c \<noteq> Unregister i"
      by (metis lessI nth_append_length)
    moreover have "\<forall>m. n < m \<and> m < length cs \<longrightarrow> cs ! m \<noteq> Unregister i"
      using later by (metis less_Suc_eq nth_append)
    ultimately show ?thesis using lt reg by (auto simp: still_registered_def)
  qed
next
  assume "is_register i c \<or> (still_registered i cs \<and> c \<noteq> Unregister i)"
  then show "still_registered i (cs @ [c])"
  proof
    assume "is_register i c"
    then have "length cs < length (cs @ [c]) \<and> is_register i ((cs @ [c]) ! length cs) \<and>
       (\<forall>m. length cs < m \<and> m < length (cs @ [c]) \<longrightarrow> (cs @ [c]) ! m \<noteq> Unregister i)"
      by auto
    then show ?thesis unfolding still_registered_def by blast
  next
    assume a: "still_registered i cs \<and> c \<noteq> Unregister i"
    then obtain n where n: "n < length cs" "is_register i (cs ! n)"
      and later: "\<forall>m. n < m \<and> m < length cs \<longrightarrow> cs ! m \<noteq> Unregister i"
      by (auto simp: still_registered_def)
    have "n < length (cs @ [c]) \<and> is_register i ((cs @ [c]) ! n) \<and>
       (\<forall>m. n < m \<and> m < length (cs @ [c]) \<longrightarrow> (cs @ [c]) ! m \<noteq> Unregister i)"
      using n later a by (auto simp: nth_append less_Suc_eq)
    then show ?thesis unfolding still_registered_def by blast
  qed
qed

lemma live_ids_iff: "i \<in> live_ids cs \<longleftrightarrow> still_registered i cs"
proof (induction cs rule: rev_induct)
  case Nil
  then show ?case by (simp add: live_ids_def still_registered_def)
next
  case (snoc c cs)
  then show ?case
    by (cases c) (auto simp: live_ids_snoc still_registered_snoc)
qed


text \<open>
  C5. After any sequence of calls on a fresh manager instance, \<open>getRegistrySize\<close> is the
  number of distinct identifiers that some call registered and no later call
  unregistered, and no identifier occurs twice in the registry. Registering an
  identifier that is already registered leaves the size as it is and makes the new
  handler the one stored for the identifier.
\<close>

theorem C5_registry_size:
  "(static_instance p = None \<and> getInstance p = (a, s0) \<longrightarrow>
      getRegistrySize a (run a cs s0) = card {i. still_registered i cs} \<and>
      {i. still_registered i cs} = live_ids cs \<and>
      distinct (map fst (registry (heap (run a cs s0) a)))) \<and>
   (has a i s \<longrightarrow>
      getRegistrySize a (register a i h s) = getRegistrySize a s \<and>
      Map_get (registry (heap (register a i h s) a)) i = Some h)"
proof (intro conjI impI)
  show l: "{i. still_registered i cs} = live_ids cs"
    using live_ids_iff by blast
  assume "static_instance p = None \<and> getInstance p = (a, s0)"
  then have k: "keys a s0 = []" using keys_fresh by blast
  then have d: "distinct (keys a s0)" by simp
  from keys_run [OF d, of cs] k
  have *: "distinct (keys a (run a cs s0))" "set (keys a (run a cs s0)) = live_ids cs"
    by (simp_all add: live_ids_def)
  from * have "getRegistrySize a (run a cs s0) = card (live_ids cs)"
    by (metis size_keys distinct_card)
  with l show "getRegistrySize a (run a cs s0) = card {i. still_registered i cs}" by simp
  from * show "distinct (map fst (registry (heap (run a cs s0) a)))"
    by (simp add: keys_def)
next
  assume h: "has a i s"
  then have "i \<in> fst ` set (registry (heap s a))"
    by (auto simp: has_def Map_has_def dest: map_of_SomeD intro: rev_image_eqI)
  then have "length (AList.update i h (registry (heap s a))) = length (registry (heap s a))"
    by (metis AList.update_keys length_map set_map)
  then show "getRegistrySize a (register a i h s) = getRegistrySize a s"
    by (simp add: getRegistrySize_def Map_size_def Map_set_def)
  show "Map_get (registry (heap (register a i h s) a)) i = Some h"
    by (simp add: Map_get_def Map_set_def AList.update_conv')
qed

theorem C5_witness:
  "getRegistrySize 0
     (run 0 [Register ''a'' content_handler, Register ''b'' content_handler,
             Register ''a'' content_handler, Unregister ''b'']
        (snd (getInstance (initial_process ''hello'' :: (unit, string) process)))) = 1 \<and>
   card {i. still_registered i
              [Register ''a'' content_handler, Register ''b'' content_handler,
               Register ''a'' content_handler, Unregister ''b'' :: (unit, string) call]} = 1 \<and>
   has 0 ''a'' example_state \<and>
   getRegistrySize 0 (register 0 ''a'' content_handler example_state) = 1"
proof -
  let ?p = "initial_process ''hello'' :: (unit, string) process"
  let ?cs = "[Register ''a'' content_handler, Register ''b'' content_handler,
              Register ''a'' content_handler, Unregister ''b''] :: (unit, string) call list"
  have 1: "static_instance ?p = None \<and> getInstance ?p = (0, snd (getInstance ?p))"
    by (simp add: getInstance_def initial_process_def)
  have 2: "getRegistrySize 0 (run 0 ?cs (snd (getInstance ?p))) = 1"
    by (simp add: getRegistrySize_def Map_size_def Map_set_def Map_delete_def
        getInstance_def initial_process_def new_manager_def AList.delete_eq)
  have 3: "has 0 ''a'' example_state" "getRegistrySize 0 example_state = 1"
    by (simp_all add: has_def Map_has_def getRegistrySize_def Map_size_def example_state_fields)
  from 1 2 3 C5_registry_size [where p = "?p" and a = 0 and ?s0.0 = "snd (getInstance ?p)" and cs = "?cs"
      and i = "''a''" and s = example_state and h = content_handler]
  show ?thesis by simp
qed

section \<open>Destroying the singleton\<close>

lemma preview_state_fields:
  "heap preview_state 0 =
     \<lparr>registry = [(''a'', content_handler)], cleanup = Some BridgeCleanup, enabled = True,
      previewRoot = Some (Root ''preview''), currentEditingId = None\<rparr>"
  "world preview_state = ''hello''"
  "calls preview_state =
     [CreateSchemaEditorBridge, CreateRoot ''preview'', Render (Root ''preview'') ''# Title'']"
  "elements preview_state = [''preview'']"
  "static_instance preview_state = Some 0"
  "allocated preview_state = 1"
  by (simp_all add: preview_state_def bridge_renderPreview_def createDefaultPreview_def
      getElementById_def example_state_fields Let_def)

lemma destroy_None: "static_instance s = None \<Longrightarrow> destroy s = s"
  by (simp add: destroy_def)

lemma static_instance_destroy: "static_instance (destroy s) = None"
  by (auto simp: destroy_def Let_def stopBridge_def split: option.splits)

lemma destroy_Some:
  assumes "static_instance s = Some a"
  shows "\<not> bridge_open a (destroy s)"
    and "registry (heap (destroy s) a) = []"
    and "currentEditingId (heap (destroy s) a) = None"
    and "previewRoot (heap (destroy s) a) = None"
    and "calls (destroy s) =
           calls s @ (if bridge_open a s then [CallCleanup] else []) @
           (case previewRoot (heap s a) of Some r \<Rightarrow> [Unmount r] | None \<Rightarrow> [])"
    and "allocated (destroy s) = allocated s"
  using assms
  by (auto simp: destroy_def Let_def stopBridge_def bridge_open_def split: option.splits)

lemma getInstance_fresh:
  assumes "static_instance s = None"
  shows "fst (getInstance s) = allocated s"
    and "heap (snd (getInstance s)) (fst (getInstance s)) = new_manager"
    and "static_instance (snd (getInstance s)) = Some (fst (getInstance s))"
  using assms by (simp_all add: getInstance_def)

text \<open>
  C6. \<open>destroy\<close> on an existing singleton calls the bridge's cleanup function if a
  connection is open, empties the registry, clears the current-editing identifier,
  unmounts and forgets the preview render target if there is one, and empties the
  static field. The next \<open>getInstance\<close> then builds an instance at a new address, with
  registry size 0 and the enabled flag false. A second \<open>destroy\<close>, and a \<open>destroy\<close> when
  no instance exists, change nothing; \<open>destroy\<close> has a result in every state.
\<close>

theorem C6_destroy:
  "(static_instance s = Some a \<longrightarrow>
      \<not> bridge_open a (destroy s) \<and>
      registry (heap (destroy s) a) = [] \<and>
      currentEditingId (heap (destroy s) a) = None \<and>
      previewRoot (heap (destroy s) a) = None \<and>
      calls (destroy s) =
        calls s @ (if bridge_open a s then [CallCleanup] else []) @
        (case previewRoot (heap s a) of Some r \<Rightarrow> [Unmount r] | None \<Rightarrow> [])) \<and>
   static_instance (destroy s) = None \<and>
   getRegistrySize (fst (getInstance (destroy s))) (snd (getInstance (destroy s))) = 0 \<and>
   \<not> isEnabled (fst (getInstance (destroy s))) (snd (getInstance (destroy s))) \<and>
   static_instance (snd (getInstance (destroy s))) = Some (fst (getInstance (destroy s))) \<and>
   (static_instance s = Some a \<and> a < allocated s \<longrightarrow> fst (getInstance (destroy s)) \<noteq> a) \<and>
   destroy (destroy s) = destroy s \<and>
   (static_instance s = None \<longrightarrow> destroy s = s)"
proof -
  note fresh = getInstance_fresh [OF static_instance_destroy [of s]]
  have "getRegistrySize (fst (getInstance (destroy s))) (snd (getInstance (destroy s))) = 0"
    by (simp add: getRegistrySize_def fresh(2) new_manager_def Map_size_def)
  moreover have "\<not> isEnabled (fst (getInstance (destroy s))) (snd (getInstance (destroy s)))"
    by (simp add: isEnabled_def fresh(2) new_manager_def)
  moreover have "static_instance s = Some a \<and> a < allocated s \<longrightarrow> fst (getInstance (destroy s)) \<noteq> a"
    by (auto simp: fresh destroy_Some)
  moreover have "destroy (destroy s) = destroy s"
    by (rule destroy_None) (rule static_instance_destroy)
  ultimately show ?thesis
    by (simp add: destroy_Some destroy_None static_instance_destroy fresh)
qed

theorem C6_witness:
  "static_instance preview_state = Some 0 \<and>
   calls (destroy preview_state) =
     [CreateSchemaEditorBridge, CreateRoot ''preview'', Render (Root ''preview'') ''# Title'',
      CallCleanup, Unmount (Root ''preview'')] \<and>
   registry (heap (destroy preview_state) 0) = [] \<and>
   static_instance (destroy preview_state) = None \<and>
   fst (getInstance (destroy preview_state)) = 1 \<and>
   getRegistrySize 1 (snd (getInstance (destroy preview_state))) = 0 \<and>
   \<not> isEnabled 1 (snd (getInstance (destroy preview_state))) \<and>
   static_instance (initial_process ''hello'' :: (unit, string) process) = None \<and>
   destroy (initial_process ''hello'' :: (unit, string) process) = initial_process ''hello''"
proof -
  have 1: "fst (getInstance (destroy preview_state)) = 1"
    using getInstance_fresh(1) [OF static_instance_destroy [of preview_state]]
    by (simp add: destroy_Some [OF preview_state_fields(5)] preview_state_fields)
  have 2: "static_instance (initial_process ''hello'' :: (unit, string) process) = None"
    by (simp add: initial_process_def)
  from 1 2 C6_destroy [where s = preview_state and a = 0]
    C6_destroy [where s = "initial_process ''hello'' :: (unit, string) process"]
  show ?thesis
    by (simp add: preview_state_fields bridge_open_def)
qed

section \<open>The preview callback\<close>

lemma createDefaultPreview_found:
  assumes "c \<in> set (elements s)"
  shows "createDefaultPreview stringify a v c s =
           (let content = (case v of StringValue str \<Rightarrow> str | OtherValue j \<Rightarrow> stringify j);
                root = (case previewRoot (heap s a) of Some r \<Rightarrow> r | None \<Rightarrow> Root c);
                s1 = (if previewRoot (heap s a) = None
                      then this_update a (\<lambda>m. m\<lparr>previewRoot := Some root\<rparr>) (external (CreateRoot c) s)
                      else s)
            in (Some (DefaultPreviewTeardown a), external (Render root content) s1))"
  using assms
  by (auto simp: createDefaultPreview_def getElementById_def Let_def split: option.splits)

lemma renderPreview_custom:
  assumes "currentEditingId (heap s a) = Some e" and "e \<noteq> []"
    and "Map_get (registry (heap s a)) e = Some h" and "renderPreview h = Some f"
  shows "bridge_renderPreview stringify a v c s =
           (map_option HandlerTeardown (fst (f v c (world s))), s\<lparr>world := snd (f v c (world s))\<rparr>)"
  using assms by (simp add: bridge_renderPreview_def split: prod.splits)

lemma renderPreview_default:
  assumes "currentEditingId (heap s a) = None \<or>
           (currentEditingId (heap s a) = Some e \<and>
            (\<not> has a e s \<or> (Map_get (registry (heap s a)) e = Some h \<and> renderPreview h = None)))"
  shows "bridge_renderPreview stringify a v c s = createDefaultPreview stringify a v c s"
  using assms by (auto simp: bridge_renderPreview_def has_iff)

text \<open>
  C7, as amended. If a non-empty current-editing identifier is set and its
  registered handler has a custom \<open>renderPreview\<close>, the preview callback returns what
  that function returns for \<open>v\<close> and \<open>c\<close>. If no current-editing identifier is set, or
  the identifier is no longer registered, or its handler has no custom renderer, the
  callback is the built-in preview. The built-in preview does nothing and returns no
  teardown when no element with id \<open>c\<close> is found. When the element is found, it
  renders the value, coerced to a string, into the manager's render target if there
  is one and into a new target created on \<open>c\<close> otherwise; it keeps that target and
  returns a teardown closure, and calling the closure unmounts the target and clears it.
\<close>

theorem C7_preview_render:
  "(currentEditingId (heap s a) = Some e \<and> e \<noteq> [] \<and>
    Map_get (registry (heap s a)) e = Some h \<and> renderPreview h = Some f \<longrightarrow>
      bridge_renderPreview stringify a v c s =
        (map_option HandlerTeardown (fst (f v c (world s))), s\<lparr>world := snd (f v c (world s))\<rparr>)) \<and>
   (currentEditingId (heap s a) = None \<or>
    (currentEditingId (heap s a) = Some e \<and>
     (\<not> has a e s \<or> (Map_get (registry (heap s a)) e = Some h \<and> renderPreview h = None))) \<longrightarrow>
      bridge_renderPreview stringify a v c s = createDefaultPreview stringify a v c s) \<and>
   (c \<notin> set (elements s) \<longrightarrow> createDefaultPreview stringify a v c s = (None, s)) \<and>
   (c \<in> set (elements s) \<longrightarrow>
      (let content = (case v of StringValue str \<Rightarrow> str | OtherValue j \<Rightarrow> stringify j);
           root = (case previewRoot (heap s a) of Some r \<Rightarrow> r | None \<Rightarrow> Root c);
           t = snd (createDefaultPreview stringify a v c s)
       in fst (createDefaultPreview stringify a v c s) = Some (DefaultPreviewTeardown a) \<and>
          previewRoot (heap t a) = Some root \<and>
          calls t =
            calls s @ (if previewRoot (heap s a) = None then [CreateRoot c] else []) @
            [Render root content] \<and>
          previewRoot (heap (call_teardown (DefaultPreviewTeardown a) t) a) = None \<and>
          calls (call_teardown (DefaultPreviewTeardown a) t) = calls t @ [Unmount root]))"
proof (intro conjI impI)
  assume "currentEditingId (heap s a) = Some e \<and> e \<noteq> [] \<and>
    Map_get (registry (heap s a)) e = Some h \<and> renderPreview h = Some f"
  then show "bridge_renderPreview stringify a v c s =
        (map_option HandlerTeardown (fst (f v c (world s))), s\<lparr>world := snd (f v c (world s))\<rparr>)"
    by (simp add: renderPreview_custom)
next
  assume "currentEditingId (heap s a) = None \<or>
    (currentEditingId (heap s a) = Some e \<and>
     (\<not> has a e s \<or> (Map_get (registry (heap s a)) e = Some h \<and> renderPreview h = None)))"
  then show "bridge_renderPreview stringify a v c s = createDefaultPreview stringify a v c s"
    by (rule renderPreview_default)
next
  assume "c \<notin> set (elements s)"
  then show "createDefaultPreview stringify a v c s = (None, s)"
    by (simp add: createDefaultPreview_def getElementById_def)
next
  assume "c \<in> set (elements s)"
  then show "let content = (case v of StringValue str \<Rightarrow> str | OtherValue j \<Rightarrow> stringify j);
           root = (case previewRoot (heap s a) of Some r \<Rightarrow> r | None \<Rightarrow> Root c);
           t = snd (createDefaultPreview stringify a v c s)
       in fst (createDefaultPreview stringify a v c s) = Some (DefaultPreviewTeardown a) \<and>
          previewRoot (heap t a) = Some root \<and>
          calls t =
            calls s @ (if previewRoot (heap s a) = None then [CreateRoot c] else []) @
            [Render root content] \<and>
          previewRoot (heap (call_teardown (DefaultPreviewTeardown a) t) a) = None \<and>
          calls (call_teardown (DefaultPreviewTeardown a) t) = calls t @ [Unmount root]"
    by (auto simp: createDefaultPreview_found Let_def)
qed

text \<open>
  C7 as the specification states it has every fallback return a teardown closure. In
  the example state no current-editing identifier is set and the document has no
  element \<^verbatim>\<open>preview\<close>: the callback returns nothing and changes nothing.
\<close>

theorem C7_counterexample:
  "currentEditingId (heap example_state 0) = None \<and>
   bridge_renderPreview (\<lambda>u. ''null'') 0 (StringValue ''# Title'') ''preview'' example_state =
     (None, example_state)"
  by (simp add: bridge_renderPreview_def createDefaultPreview_def getElementById_def
      example_state_fields)

lemma custom_state_fields:
  "heap custom_state 0 =
     \<lparr>registry = [(''a'', content_handler), (''c'', custom_handler)],
      cleanup = Some BridgeCleanup, enabled = True, previewRoot = None,
      currentEditingId = Some ''c''\<rparr>"
  "world custom_state = ''hello''"
  "calls custom_state = [CreateSchemaEditorBridge]"
  "elements custom_state = [''preview'']"
  by (simp_all add: custom_state_def bridge_getSchema_def register_def startBridge_def
      example_state_fields Map_get_def Map_set_def Let_def custom_handler_def content_handler_def)

theorem C7_witness:
  "bridge_renderPreview (\<lambda>u. ''null'') 0 (StringValue ''# Title'') ''preview'' custom_state =
     (Some (HandlerTeardown (\<lambda>w. ''closed '')), custom_state\<lparr>world := ''custom preview in preview''\<rparr>) \<and>
   bridge_renderPreview (\<lambda>u. ''null'') 0 (StringValue ''# Title'') ''missing'' example_state =
     (None, example_state) \<and>
   fst (createDefaultPreview (\<lambda>u. ''null'') 0 (OtherValue ()) ''preview'' preview_state) =
     Some (DefaultPreviewTeardown 0) \<and>
   calls (snd (createDefaultPreview (\<lambda>u. ''null'') 0 (OtherValue ()) ''preview'' preview_state)) =
     [CreateSchemaEditorBridge, CreateRoot ''preview'', Render (Root ''preview'') ''# Title'',
      Render (Root ''preview'') ''null''] \<and>
   calls (call_teardown (DefaultPreviewTeardown 0)
            (snd (createDefaultPreview (\<lambda>u. ''null'') 0 (OtherValue ()) ''preview'' preview_state))) =
     [CreateSchemaEditorBridge, CreateRoot ''preview'', Render (Root ''preview'') ''# Title'',
      Render (Root ''preview'') ''null'', Unmount (Root ''preview'')]"
proof -
  have 1: "currentEditingId (heap custom_state 0) = Some ''c'' \<and> ''c'' \<noteq> [] \<and>
      Map_get (registry (heap custom_state 0)) ''c'' = Some custom_handler \<and>
      renderPreview (custom_handler :: (unit, string) BubbleHandler) =
        Some (\<lambda>v c w. (Some (\<lambda>w. ''closed ''), ''custom preview in '' @ c))"
    by (simp add: custom_state_fields Map_get_def custom_handler_def)
  have 2: "currentEditingId (heap example_state 0) = None" "''missing'' \<notin> set (elements example_state)"
    by (simp_all add: example_state_fields)
  have 3: "''preview'' \<in> set (elements preview_state)"
    by (simp add: preview_state_fields)
  from 1 C7_preview_render [where s = custom_state and a = 0 and e = "''c''" and h = custom_handler
      and f = "\<lambda>v c w. (Some (\<lambda>w. ''closed ''), ''custom preview in '' @ c)"
      and stringify = "\<lambda>u. ''null''" and v = "StringValue ''# Title''" and c = "''preview''"]
  have a: "bridge_renderPreview (\<lambda>u. ''null'') 0 (StringValue ''# Title'') ''preview'' custom_state =
     (Some (HandlerTeardown (\<lambda>w. ''closed '')), custom_state\<lparr>world := ''custom preview in preview''\<rparr>)"
    by simp
  from 2 C7_preview_render [where s = example_state and a = 0
      and stringify = "\<lambda>u. ''null''" and v = "StringValue ''# Title''" and c = "''missing''"]
  have b: "bridge_renderPreview (\<lambda>u. ''null'') 0 (StringValue ''# Title'') ''missing'' example_state =
     (None, example_state)"
    by simp
  from 3 C7_preview_render [where s = preview_state and a = 0
      and stringify = "\<lambda>u. ''null''" and v = "OtherValue ()" and c = "''preview''"]
  have c: "fst (createDefaultPreview (\<lambda>u. ''null'') 0 (OtherValue ()) ''preview'' preview_state) =
     Some (DefaultPreviewTeardown 0)"
    "calls (snd (createDefaultPreview (\<lambda>u. ''null'') 0 (OtherValue ()) ''preview'' preview_state)) =
     [CreateSchemaEditorBridge, CreateRoot ''preview'', Render (Root ''preview'') ''# Title'',
      Render (Root ''preview'') ''null'']"
    "calls (call_teardown (DefaultPreviewTeardown 0)
            (snd (createDefaultPreview (\<lambda>u. ''null'') 0 (OtherValue ()) ''preview'' preview_state))) =
     [CreateSchemaEditorBridge, CreateRoot ''preview'', Render (Root ''preview'') ''# Title'',
      Render (Root ''preview'') ''null'', Unmount (Root ''preview'')]"
    by (simp_all add: Let_def preview_state_fields)
  from a b c show ?thesis by simp
qed

text \<open>
  An identifier that is the empty string can be registered and queried, but the
  preview callback treats it as if no identifier were set: the custom renderer of
  its handler is not used.
\<close>

lemma renderPreview_empty_identifier:
  "bridge_renderPreview (\<lambda>u. ''null'') 0 (StringValue ''# Title'') ''preview''
     (snd (bridge_getSchema 0 [] (register 0 [] custom_handler example_state))) =
   (None, snd (bridge_getSchema 0 [] (register 0 [] custom_handler example_state)))"
  by (simp add: bridge_renderPreview_def createDefaultPreview_def getElementById_def
      bridge_getSchema_def register_def startBridge_def example_state_fields Map_get_def
      Map_set_def Let_def custom_handler_def content_handler_def)

section \<open>The hook's content\<close>

lemma hook_setContent_cell:
  "hooks (hook_setContent k v w) k = setContentInternal v (hooks w k)"
  by (simp add: hook_setContent_def Let_def split: option.splits)

text \<open>
  C8. Right after the hook's \<open>setContent\<close> is called with \<open>v\<close>, before any render, the
  \<open>getContent\<close> of the hook's handler returns \<open>v\<close>, while the value the component saw at
  its last render is still the old one; the same holds when the host reads through
  the manager, also after the host itself wrote \<open>v\<close> through the manager. \<open>setContent\<close>
  applies the latest \<open>onContentChange\<close> callback once, to \<open>v\<close>, and touches nothing of
  the application's state when there is no callback.
\<close>

theorem C8_setContent_read_back:
  "fst (getContent (hook_handler k rp) (hook_setContent k v w)) = v \<and>
   content (hooks (hook_setContent k v w) k) = content (hooks w k) \<and>
   (onContentChangeRef (hooks w k) = Some f \<longrightarrow> user (hook_setContent k v w) = f v (user w)) \<and>
   (onContentChangeRef (hooks w k) = None \<longrightarrow> user (hook_setContent k v w) = user w) \<and>
   (Map_get (registry (heap s a)) i = Some (hook_handler k rp) \<longrightarrow>
      fst (bridge_getSchema a i (s\<lparr>world := hook_setContent k v (world s)\<rparr>)) = Some v \<and>
      fst (bridge_getSchema a i (snd (bridge_updateSchema stringify a (StringValue v) i s))) = Some v)"
  by (simp add: hook_handler_def hook_setContent_cell setContentInternal_def bridge_getSchema_def
      bridge_updateSchema_def)
    (simp add: hook_setContent_def Let_def setContentInternal_def)

theorem C8_witness:
  "content (hooks mounted_hook 0) = ''hello'' \<and>
   fst (getContent (hook_handler 0 None :: (unit, string list components) BubbleHandler)
          (hook_setContent 0 ''world'' mounted_hook)) = ''world'' \<and>
   content (hooks (hook_setContent 0 ''world'' mounted_hook) 0) = ''hello'' \<and>
   content (hooks (render_hook 0 None (hook_setContent 0 ''world'' mounted_hook)) 0) = ''world'' \<and>
   user (hook_setContent 0 ''world'' mounted_hook) = [''world''] \<and>
   user (hook_setContent 0 ''world'' (render_hook 0 None mounted_hook)) = [] \<and>
   fst (bridge_getSchema 0 ''b''
          (snd (bridge_updateSchema (\<lambda>u. ''null'') 0 (StringValue ''world'') ''b''
                  (register 0 ''b'' (hook_handler 0 None)
                     (snd (getInstance (initial_process mounted_hook :: (unit, string list components) process))))))) =
     Some ''world''"
proof -
  let ?s = "register 0 ''b'' (hook_handler 0 None)
              (snd (getInstance (initial_process mounted_hook :: (unit, string list components) process)))"
  have 1: "onContentChangeRef (hooks mounted_hook 0) = Some (\<lambda>c seen. seen @ [c])"
    "user mounted_hook = []" "content (hooks mounted_hook 0) = ''hello''"
    by (simp_all add: mounted_hook_def)
  have 2: "Map_get (registry (heap ?s 0)) ''b'' = Some (hook_handler 0 None)"
    by (simp add: register_def Let_def startBridge_def getInstance_def initial_process_def
        new_manager_def Map_get_def Map_set_def)
  have 3: "content (hooks (render_hook 0 None (hook_setContent 0 ''world'' mounted_hook)) 0) = ''world''"
    by (simp add: render_hook_def hook_setContent_cell setContentInternal_def)
  have 4: "onContentChangeRef (hooks (render_hook 0 None mounted_hook) 0) = None"
    "user (render_hook 0 None mounted_hook) = []"
    by (simp_all add: render_hook_def mounted_hook_def)
  from 4 C8_setContent_read_back [where k = 0 and v = "''world''"
      and w = "render_hook 0 None mounted_hook", THEN conjunct2, THEN conjunct2, THEN conjunct2,
      THEN conjunct1]
  have 5: "user (hook_setContent 0 ''world'' (render_hook 0 None mounted_hook)) = []"
    by simp
  from 1 2 3 5 C8_setContent_read_back [where k = 0 and v = "''world''" and w = mounted_hook
      and rp = None and f = "\<lambda>c seen. seen @ [c]" and s = "?s" and a = 0 and i = "''b''"
      and stringify = "\<lambda>u. ''null''"]
  show ?thesis by simp
qed

section \<open>The hook and the enabled flag\<close>

lemma flag_startBridge [simp]:
  "enabled (heap (startBridge x s) b) = enabled (heap s b)"
  "static_instance (startBridge x s) = static_instance s"
  by (simp_all add: startBridge_def)

lemma flag_stopBridge [simp]:
  "enabled (heap (stopBridge x s) b) = enabled (heap s b)"
  "static_instance (stopBridge x s) = static_instance s"
  by (simp_all add: stopBridge_def)

lemma flag_register [simp]:
  "enabled (heap (register x i h s) b) = enabled (heap s b)"
  "static_instance (register x i h s) = static_instance s"
  by (simp_all add: register_def Let_def)

lemma flag_unregister [simp]:
  "enabled (heap (unregister x i s) b) = enabled (heap s b)"
  "static_instance (unregister x i s) = static_instance s"
  by (simp_all add: unregister_def Let_def)

lemma flag_setEnabled [simp]:
  "enabled (heap (setEnabled x en s) b) = (if b = x then en else enabled (heap s b))"
  "static_instance (setEnabled x en s) = static_instance s"
  by (simp_all add: setEnabled_def Let_def)

lemma flag_getSchema [simp]:
  "enabled (heap (snd (bridge_getSchema x i s)) b) = enabled (heap s b)"
  "static_instance (snd (bridge_getSchema x i s)) = static_instance s"
  by (simp_all add: bridge_getSchema_def Let_def split: option.splits prod.splits)

lemma flag_updateSchema [simp]:
  "enabled (heap (snd (bridge_updateSchema f x v i s)) b) = enabled (heap s b)"
  "static_instance (snd (bridge_updateSchema f x v i s)) = static_instance s"
  by (simp_all add: bridge_updateSchema_def Let_def split: option.splits)

lemma flag_createDefaultPreview [simp]:
  "enabled (heap (snd (createDefaultPreview f x v c s)) b) = enabled (heap s b)"
  "static_instance (snd (createDefaultPreview f x v c s)) = static_instance s"
  by (simp_all add: createDefaultPreview_def Let_def split: option.splits)

lemma flag_renderPreview [simp]:
  "enabled (heap (snd (bridge_renderPreview f x v c s)) b) = enabled (heap s b)"
  "static_instance (snd (bridge_renderPreview f x v c s)) = static_instance s"
  by (simp_all add: bridge_renderPreview_def Let_def split: option.splits prod.splits)

lemma flag_call_teardown [simp]:
  "enabled (heap (call_teardown t s) b) = enabled (heap s b)"
  "static_instance (call_teardown t s) = static_instance s"
  by (cases t; simp split: option.splits)+

lemma flag_run_cleanup [simp]:
  "enabled (heap (run_cleanup c s) b) = enabled (heap s b)"
  "static_instance (run_cleanup c s) = static_instance s"
  by (cases c; simp)+

lemma getInstance_Some [simp]: "static_instance s = Some a \<Longrightarrow> getInstance s = (a, s)"
  by (simp add: getInstance_def)

lemma effect_enabled:
  "i \<noteq> [] \<Longrightarrow>
   registration_effect k (Some i) True rp s =
     (Some (UnregisterOnCleanup (fst (getInstance s)) i),
      register (fst (getInstance s)) i (hook_handler k rp)
        (setEnabled (fst (getInstance s)) True (snd (getInstance s))))"
  by (simp add: registration_effect_def Let_def split: prod.splits)

lemma static_instance_getInstance: "static_instance (snd (getInstance s)) = Some (fst (getInstance s))"
  by (simp add: getInstance_def split: option.splits)

lemma effect_keeps_flag:
  assumes "static_instance s = Some a" and "enabled (heap s a)"
  shows "enabled (heap (snd (registration_effect k ident en rp s)) a) \<and>
         static_instance (snd (registration_effect k ident en rp s)) = Some a"
  using assms by (simp add: registration_effect_def Let_def split: option.splits)

lemma effect_disabled_frame:
  assumes "static_instance s = Some a" and "ident = None \<or> ident = Some [] \<or> \<not> en"
  shows "enabled (heap (snd (registration_effect k ident en rp s)) b) = enabled (heap s b)"
  using assms by (auto simp add: registration_effect_def Let_def split: option.splits)

lemma effect_without_identifier:
  "static_instance s = Some a \<Longrightarrow> snd (registration_effect k None en rp s) = s"
  by (simp add: registration_effect_def)

lemma effect_disabled_not_registered:
  "static_instance s = Some a \<Longrightarrow> \<not> has a i s \<Longrightarrow>
   snd (registration_effect k (Some i) False rp s) = s"
  by (simp add: registration_effect_def)

lemma perform_keeps_flag:
  assumes "static_instance s = Some a" and "enabled (heap s a)" and "\<not> disables x"
  shows "enabled (heap (perform stringify x s) a) \<and> static_instance (perform stringify x s) = Some a"
proof (cases x)
  case (RunEffect k ident en rp)
  with assms effect_keeps_flag show ?thesis by simp
next
  case (ManagerCall this c)
  with assms show ?thesis by (cases c) auto
qed (use assms in simp_all)

lemma perform_all_keeps_flag:
  assumes "static_instance s = Some a" and "enabled (heap s a)" and "\<forall>x \<in> set xs. \<not> disables x"
  shows "enabled (heap (perform_all stringify xs s) a) \<and>
         static_instance (perform_all stringify xs s) = Some a"
  using assms
proof (induction xs arbitrary: s)
  case Nil
  then show ?case by simp
next
  case (Cons x xs)
  from Cons.prems have "enabled (heap (perform stringify x s) a) \<and>
      static_instance (perform stringify x s) = Some a"
    by (intro perform_keeps_flag) simp_all
  with Cons.prems Cons.IH [of "perform stringify x s"] show ?case by simp
qed

lemma has_unregister:
  "\<not> has m i (unregister m i s)"
  "j \<noteq> i \<Longrightarrow> has m j (unregister m i s) = has m j s"
  by (simp_all add: has_def Map_has_def Map_delete_def AList.delete_conv')

lemma effect_absent:
  "ident = None \<or> ident = Some [] \<Longrightarrow>
   registration_effect k ident en rp s = (None, snd (getInstance s))"
  by (auto simp: registration_effect_def split: prod.splits)

lemma effect_disabled:
  "i \<noteq> [] \<Longrightarrow>
   registration_effect k (Some i) False rp s =
     (None,
      if has (fst (getInstance s)) i (snd (getInstance s))
      then unregister (fst (getInstance s)) i (snd (getInstance s))
      else snd (getInstance s))"
  by (simp add: registration_effect_def split: prod.splits)

text \<open>
  C10, as amended. When the registration effect runs with a non-empty identifier and
  \<open>enabled\<close> true, it obtains the singleton, calls \<open>setEnabled(true)\<close> on it and then
  registers the hook's handler; afterwards the singleton's flag is true and the
  identifier is registered, whatever the state before, also when no singleton
  existed. With no identifier or the empty string the effect only obtains the
  singleton, whatever \<open>enabled\<close> is. With a non-empty identifier and \<open>enabled\<close> false it
  unregisters the identifier if it is registered and does nothing else. The cleanup
  of an effect is \<open>unregister\<close> of its identifier on its manager: the identifier is
  gone from the registry and every other identifier stays. Neither the cleanup nor
  an effect without identifier or with \<open>enabled\<close> false changes the flag of any
  manager. So once the singleton's flag is true, it is still true after any sequence
  of hook effects, cleanups, manager calls, host callbacks, teardowns, hook writes,
  renders and content synchronisations in which no call is \<open>setEnabled(false)\<close>
  (\<open>destroy\<close> is not an action of such a sequence), and the singleton is still the
  same object.
\<close>

theorem C10_hook_turns_flag_on_and_never_off:
  "(i \<noteq> [] \<longrightarrow>
      registration_effect k (Some i) True rp s =
        (Some (UnregisterOnCleanup (fst (getInstance s)) i),
         register (fst (getInstance s)) i (hook_handler k rp)
           (setEnabled (fst (getInstance s)) True (snd (getInstance s)))) \<and>
      isEnabled (fst (getInstance s)) (snd (registration_effect k (Some i) True rp s)) \<and>
      static_instance (snd (registration_effect k (Some i) True rp s)) = Some (fst (getInstance s)) \<and>
      has (fst (getInstance s)) i (snd (registration_effect k (Some i) True rp s))) \<and>
   isEnabled b (run_cleanup c s) = isEnabled b s \<and>
   (static_instance s = Some a \<and> (ident = None \<or> ident = Some [] \<or> \<not> en) \<longrightarrow>
      isEnabled b (snd (registration_effect k ident en rp s)) = isEnabled b s) \<and>
   (static_instance s = Some a \<and> isEnabled a s \<and> (\<forall>x \<in> set acts. \<not> disables x) \<longrightarrow>
      isEnabled a (perform_all stringify acts s) \<and>
      static_instance (perform_all stringify acts s) = Some a) \<and>
   (run_cleanup (UnregisterOnCleanup m i) s = unregister m i s \<and>
    registry (heap (run_cleanup (UnregisterOnCleanup m i) s) m) = Map_delete i (registry (heap s m)) \<and>
    \<not> has m i (run_cleanup (UnregisterOnCleanup m i) s) \<and>
    (j \<noteq> i \<longrightarrow> has m j (run_cleanup (UnregisterOnCleanup m i) s) = has m j s)) \<and>
   (ident = None \<or> ident = Some [] \<longrightarrow>
      registration_effect k ident en rp s = (None, snd (getInstance s))) \<and>
   (i \<noteq> [] \<longrightarrow>
      registration_effect k (Some i) False rp s =
        (None,
         if has (fst (getInstance s)) i (snd (getInstance s))
         then unregister (fst (getInstance s)) i (snd (getInstance s))
         else snd (getInstance s)) \<and>
      \<not> has (fst (getInstance s)) i (snd (registration_effect k (Some i) False rp s)))"
proof (intro conjI impI)
  assume i: "i \<noteq> []"
  show "registration_effect k (Some i) True rp s =
        (Some (UnregisterOnCleanup (fst (getInstance s)) i),
         register (fst (getInstance s)) i (hook_handler k rp)
           (setEnabled (fst (getInstance s)) True (snd (getInstance s))))"
    using i by (rule effect_enabled)
  show "isEnabled (fst (getInstance s)) (snd (registration_effect k (Some i) True rp s))"
    by (simp add: effect_enabled [OF i] isEnabled_def)
  show "static_instance (snd (registration_effect k (Some i) True rp s)) = Some (fst (getInstance s))"
    by (simp add: effect_enabled [OF i] static_instance_getInstance)
  show "has (fst (getInstance s)) i (snd (registration_effect k (Some i) True rp s))"
    by (simp add: effect_enabled [OF i] has_def Map_has_def Map_set_def AList.update_conv')
next
  show "isEnabled b (run_cleanup c s) = isEnabled b s"
    by (simp add: isEnabled_def)
next
  assume "static_instance s = Some a \<and> (ident = None \<or> ident = Some [] \<or> \<not> en)"
  then show "isEnabled b (snd (registration_effect k ident en rp s)) = isEnabled b s"
    by (simp add: isEnabled_def effect_disabled_frame)
next
  assume *: "static_instance s = Some a \<and> isEnabled a s \<and> (\<forall>x \<in> set acts. \<not> disables x)"
  then have "enabled (heap (perform_all stringify acts s) a) \<and>
         static_instance (perform_all stringify acts s) = Some a"
    by (intro perform_all_keeps_flag) (simp_all add: isEnabled_def)
  then show "isEnabled a (perform_all stringify acts s)"
    and "static_instance (perform_all stringify acts s) = Some a"
    by (simp_all add: isEnabled_def)
next
  show "run_cleanup (UnregisterOnCleanup m i) s = unregister m i s" by simp
  show "registry (heap (run_cleanup (UnregisterOnCleanup m i) s) m) = Map_delete i (registry (heap s m))"
    by simp
  show "\<not> has m i (run_cleanup (UnregisterOnCleanup m i) s)"
    by (simp add: has_unregister)
next
  assume "j \<noteq> i"
  then show "has m j (run_cleanup (UnregisterOnCleanup m i) s) = has m j s"
    by (simp add: has_unregister)
next
  assume "ident = None \<or> ident = Some []"
  then show "registration_effect k ident en rp s = (None, snd (getInstance s))"
    by (rule effect_absent)
next
  assume i: "i \<noteq> []"
  show "registration_effect k (Some i) False rp s =
        (None,
         if has (fst (getInstance s)) i (snd (getInstance s))
         then unregister (fst (getInstance s)) i (snd (getInstance s))
         else snd (getInstance s))"
    using i by (rule effect_disabled)
  show "\<not> has (fst (getInstance s)) i (snd (registration_effect k (Some i) False rp s))"
    by (simp add: effect_disabled [OF i] has_unregister)
qed

text \<open>
  C10 as the specification states it speaks of any identifier that is present. The
  empty string is a string, yet the effect's guard \<^verbatim>\<open>!id\<close> treats it as absent: run
  with the empty identifier and \<open>enabled\<close> true on a process without a singleton, the
  effect builds the singleton and returns no cleanup, the flag stays false and
  nothing is registered.
\<close>

theorem C10_counterexample:
  "fst (registration_effect 0 (Some []) True None
          (initial_process mounted_hook :: (unit, string list components) process)) = None \<and>
   static_instance
     (snd (registration_effect 0 (Some []) True None
             (initial_process mounted_hook :: (unit, string list components) process))) = Some 0 \<and>
   \<not> isEnabled 0
     (snd (registration_effect 0 (Some []) True None
             (initial_process mounted_hook :: (unit, string list components) process))) \<and>
   \<not> has 0 []
     (snd (registration_effect 0 (Some []) True None
             (initial_process mounted_hook :: (unit, string list components) process))) \<and>
   getRegistrySize 0
     (snd (registration_effect 0 (Some []) True None
             (initial_process mounted_hook :: (unit, string list components) process))) = 0"
  by (simp add: registration_effect_def getInstance_def initial_process_def isEnabled_def
      has_def Map_has_def getRegistrySize_def Map_size_def new_manager_def)

theorem C10_witness:
  "\<not> isEnabled 0 (snd (getInstance (initial_process mounted_hook :: (unit, string list components) process))) \<and>
   isEnabled 0 (snd (registration_effect 0 (Some ''b'') True None
                       (initial_process mounted_hook :: (unit, string list components) process))) \<and>
   has 0 ''b'' (snd (registration_effect 0 (Some ''b'') True None
                       (initial_process mounted_hook :: (unit, string list components) process))) \<and>
   isEnabled 0
     (snd (registration_effect 0 (Some ''b'') False None
             (snd (registration_effect 0 (Some ''b'') True None
                     (initial_process mounted_hook :: (unit, string list components) process))))) \<and>
   isEnabled 0
     (perform_all (\<lambda>u. ''null'')
        [RunCleanup (UnregisterOnCleanup 0 ''b''), RunEffect 0 (Some ''b'') False None,
         RunEffect 1 None True None, ManagerCall 0 (SetEnabled True)]
        (snd (registration_effect 0 (Some ''b'') True None
                (initial_process mounted_hook :: (unit, string list components) process)))) \<and>
   \<not> has 0 ''b''
     (perform_all (\<lambda>u. ''null'')
        [RunCleanup (UnregisterOnCleanup 0 ''b''), RunEffect 0 (Some ''b'') False None,
         RunEffect 1 None True None, ManagerCall 0 (SetEnabled True)]
        (snd (registration_effect 0 (Some ''b'') True None
                (initial_process mounted_hook :: (unit, string list components) process)))) \<and>
   \<not> has 0 ''b''
     (run_cleanup (UnregisterOnCleanup 0 ''b'')
        (snd (registration_effect 0 (Some ''b'') True None
                (initial_process mounted_hook :: (unit, string list components) process)))) \<and>
   getRegistrySize 0
     (run_cleanup (UnregisterOnCleanup 0 ''b'')
        (register 0 ''a'' (hook_handler 1 None)
           (snd (registration_effect 0 (Some ''b'') True None
                   (initial_process mounted_hook :: (unit, string list components) process))))) = 1 \<and>
   has 0 ''a''
     (run_cleanup (UnregisterOnCleanup 0 ''b'')
        (register 0 ''a'' (hook_handler 1 None)
           (snd (registration_effect 0 (Some ''b'') True None
                   (initial_process mounted_hook :: (unit, string list components) process))))) \<and>
   registration_effect 1 None True None
     (snd (registration_effect 0 (Some ''b'') True None
             (initial_process mounted_hook :: (unit, string list components) process))) =
     (None, snd (registration_effect 0 (Some ''b'') True None
                   (initial_process mounted_hook :: (unit, string list components) process))) \<and>
   \<not> has 0 ''b''
     (snd (registration_effect 0 (Some ''b'') False None
             (snd (registration_effect 0 (Some ''b'') True None
                     (initial_process mounted_hook :: (unit, string list components) process))))) \<and>
   getRegistrySize 0
     (snd (registration_effect 0 (Some ''b'') False None
             (snd (registration_effect 0 (Some ''b'') True None
                     (initial_process mounted_hook :: (unit, string list components) process))))) = 0"
proof -
  let ?p = "initial_process mounted_hook :: (unit, string list components) process"
  let ?s = "snd (registration_effect 0 (Some ''b'') True None ?p)"
  let ?acts = "[RunCleanup (UnregisterOnCleanup 0 ''b''), RunEffect 0 (Some ''b'') False None,
         RunEffect 1 None True None, ManagerCall 0 (SetEnabled True)] :: (unit, string list) action list"
  let ?u = "register 0 ''a'' (hook_handler 1 None) ?s"
  note C10 = C10_hook_turns_flag_on_and_never_off
  have g: "fst (getInstance ?p) = 0" "\<not> isEnabled 0 (snd (getInstance ?p))"
    by (simp_all add: getInstance_def initial_process_def isEnabled_def new_manager_def)
  have ne: "''b'' \<noteq> []" "''a'' \<noteq> ''b''" by simp_all
  note e = C10 [where i = "''b''" and k = 0 and rp = None and s = "?p",
      THEN conjunct1, rule_format, OF ne(1)]
  from e [unfolded g(1)]
  have 1: "isEnabled 0 ?s" "static_instance ?s = Some 0" "has 0 ''b'' ?s"
    by blast+
  have 2: "\<forall>x \<in> set ?acts. \<not> disables x" by simp
  from 1 2 C10 [where s = "?s" and a = 0 and acts = "?acts" and stringify = "\<lambda>u. ''null''",
      THEN conjunct2, THEN conjunct2, THEN conjunct2, THEN conjunct1]
  have 3: "isEnabled 0 (perform_all (\<lambda>u. ''null'') ?acts ?s)"
    by blast
  let ?t = "unregister 0 ''b'' ?s"
  have eq: "?s = register 0 ''b'' (hook_handler 0 None) (setEnabled 0 True (snd (getInstance ?p)))"
    using e [unfolded g(1)] by simp
  have r: "registry (heap ?s 0) = [(''b'', hook_handler 0 None)]"
    unfolding eq
    by (simp add: getInstance_def initial_process_def new_manager_def Map_set_def)
  then have t: "static_instance ?t = Some 0" "\<not> has 0 ''b'' ?t"
    by (simp_all add: 1 has_def Map_has_def Map_delete_def)
  then have 4: "\<not> has 0 ''b'' (perform_all (\<lambda>u. ''null'') ?acts ?s)"
    by (simp add: effect_without_identifier effect_disabled_not_registered has_def)
  from 1 C10 [where s = "?s" and a = 0 and b = 0 and ident = "Some ''b''" and en = False and k = 0
      and rp = None, THEN conjunct2, THEN conjunct2, THEN conjunct1]
  have 5: "isEnabled 0 (snd (registration_effect 0 (Some ''b'') False None ?s))"
    by simp
  from C10 [where m = 0 and i = "''b''" and s = "?s",
      THEN conjunct2, THEN conjunct2, THEN conjunct2, THEN conjunct2, THEN conjunct1]
  have 6: "\<not> has 0 ''b'' (run_cleanup (UnregisterOnCleanup 0 ''b'') ?s)"
    by blast
  from ne C10 [where m = 0 and i = "''b''" and j = "''a''" and s = "?u",
      THEN conjunct2, THEN conjunct2, THEN conjunct2, THEN conjunct2, THEN conjunct1]
  have 7: "getRegistrySize 0 (run_cleanup (UnregisterOnCleanup 0 ''b'') ?u) = 1"
    "has 0 ''a'' (run_cleanup (UnregisterOnCleanup 0 ''b'') ?u)"
    by (simp_all add: getRegistrySize_def Map_size_def Map_delete_def Map_set_def r has_def
        Map_has_def)
  from 1 C10 [where ident = None and k = 1 and en = True and rp = None and s = "?s",
      THEN conjunct2, THEN conjunct2, THEN conjunct2, THEN conjunct2, THEN conjunct2,
      THEN conjunct1]
  have 8: "registration_effect 1 None True None ?s = (None, ?s)"
    by simp
  note d = C10 [where i = "''b''" and k = 0 and rp = None and s = "?s",
      THEN conjunct2, THEN conjunct2, THEN conjunct2, THEN conjunct2, THEN conjunct2,
      THEN conjunct2, rule_format, OF ne(1)]
  have gi: "getInstance ?s = (0, ?s)" using 1(2) by simp
  note d = d [unfolded gi fst_conv snd_conv]
  from d have 9: "\<not> has 0 ''b'' (snd (registration_effect 0 (Some ''b'') False None ?s))"
    by blast
  from d 1 have 11: "snd (registration_effect 0 (Some ''b'') False None ?s) = unregister 0 ''b'' ?s"
    by simp
  have 10: "getRegistrySize 0 (snd (registration_effect 0 (Some ''b'') False None ?s)) = 0"
    by (simp add: 11 getRegistrySize_def Map_size_def Map_delete_def r)
  from g 1 3 4 5 6 7 8 9 10 show ?thesis by simp
qed

section \<open>Call sequences and the log of SDK calls\<close>

text \<open>The states of a sequence are the results of its prefixes.\<close>

lemma states_last: "last (states a cs s) = run a cs s"
  by (induction cs arbitrary: s) (simp_all, metis list.distinct(1) states.elims)

lemma states_prefixes: "set (states a cs s) = {run a (take n cs) s | n. n \<le> length cs}"
proof (induction cs arbitrary: s)
  case Nil
  then show ?case by simp
next
  case (Cons c cs)
  have "{run a (take n (c # cs)) s | n. n \<le> length (c # cs)} =
        insert s {run a (take n cs) (apply_call a c s) | n. n \<le> length cs}"
  proof (intro set_eqI iffI)
    fix t assume "t \<in> {run a (take n (c # cs)) s | n. n \<le> length (c # cs)}"
    then obtain n where n: "n \<le> Suc (length cs)" "t = run a (take n (c # cs)) s" by auto
    then show "t \<in> insert s {run a (take n cs) (apply_call a c s) | n. n \<le> length cs}"
      by (cases n) auto
  next
    fix t assume "t \<in> insert s {run a (take n cs) (apply_call a c s) | n. n \<le> length cs}"
    then consider "t = s" | n where "n \<le> length cs" "t = run a (take n cs) (apply_call a c s)"
      by auto
    then show "t \<in> {run a (take n (c # cs)) s | n. n \<le> length (c # cs)}"
    proof cases
      case 1
      then have "t = run a (take 0 (c # cs)) s" by simp
      then show ?thesis by blast
    next
      case 2
      then have "t = run a (take (Suc n) (c # cs)) s" "Suc n \<le> length (c # cs)" by simp_all
      then show ?thesis by blast
    qed
  qed
  with Cons.IH show ?case by simp
qed

lemma open_connections_snoc:
  "open_connections (cs @ [c]) =
     open_connections cs +
     (case c of CreateSchemaEditorBridge \<Rightarrow> 1 | CallCleanup \<Rightarrow> - 1 | _ \<Rightarrow> 0)"
  by (induction cs rule: open_connections.induct) (simp_all split: external_call.splits)

lemma balanced_apply_call: "balanced n a s \<Longrightarrow> balanced n a (apply_call a c s)"
  by (cases c)
     (auto simp: balanced_def bridge_open_def setEnabled_def register_def unregister_def
        startBridge_def stopBridge_def Let_def open_connections_snoc)

lemma balanced_run: "balanced n a s \<Longrightarrow> balanced n a (run a cs s)"
  by (induction cs arbitrary: s) (simp_all add: balanced_apply_call)

text \<open>
  What the manager believes agrees with what it has asked of the SDK: over any
  sequence of calls on a fresh instance, the log holds exactly one more
  \<^verbatim>\<open>createSchemaEditorBridge\<close> than cleanup calls while the connection is open, and
  equally many while it is closed. Every connection is closed once, none is left over.
\<close>

lemma connections_balanced:
  assumes "static_instance p = None" and "getInstance p = (a, s0)"
  shows "open_connections (calls (run a cs s0)) =
           open_connections (calls p) + (if bridge_open a (run a cs s0) then 1 else 0)"
proof -
  from assms have "balanced (open_connections (calls p)) a s0"
    by (auto simp: balanced_def bridge_open_def getInstance_def new_manager_def)
  then have "balanced (open_connections (calls p)) a (run a cs s0)"
    by (rule balanced_run)
  then show ?thesis by (simp add: balanced_def)
qed

end
